theory Spec2Isabelle
  imports Main "HOL-Library.Word"
begin

section \<open>JavaScript values used by static/js/script.js\<close>

text \<open>
  A JavaScript string is a sequence of UTF-16 code units. The string literals of the script
  are ASCII; \<open>ascii\<close> embeds them.
\<close>

type_synonym js_string = "16 word list"

definition ascii :: "string \<Rightarrow> js_string" where
  "ascii s = map of_char s"

text \<open>
  \<open>String.prototype.trim\<close> removes, at both ends, the code units of ECMAScript's
  WhiteSpace and LineTerminator productions.
\<close>

definition is_white_space :: "16 word \<Rightarrow> bool" where
  "is_white_space c =
     (c = 0x0009 \<or> c = 0x000A \<or> c = 0x000B \<or> c = 0x000C \<or> c = 0x000D \<or> c = 0x0020 \<or>
      c = 0x00A0 \<or> c = 0x1680 \<or> (0x2000 \<le> c \<and> c \<le> 0x200A) \<or> c = 0x2028 \<or>
      c = 0x2029 \<or> c = 0x202F \<or> c = 0x205F \<or> c = 0x3000 \<or> c = 0xFEFF)"

definition trim :: "js_string \<Rightarrow> js_string" where
  "trim s = rev (dropWhile is_white_space (rev (dropWhile is_white_space s)))"

text \<open>
  The fields of the parsed response that the script reads are strings, \<open>null\<close>, or absent
  (reading an absent property gives \<open>undefined\<close>).
\<close>

datatype js_value = Undefined | Null | Str js_string

fun truthy :: "js_value \<Rightarrow> bool" where
  "truthy Undefined = False"
| "truthy Null = False"
| "truthy (Str s) = (s \<noteq> [])"

fun to_string :: "js_value \<Rightarrow> js_string" where
  "to_string Undefined = ascii ''undefined''"
| "to_string Null = ascii ''null''"
| "to_string (Str s) = s"

text \<open>\<open>v || d\<close> with a string literal \<open>d\<close>, assigned to \<open>textContent\<close>.\<close>

definition or_else :: "js_value \<Rightarrow> js_string \<Rightarrow> js_string" where
  "or_else v d = (if truthy v then to_string v else d)"

record payload =
  status :: js_value
  english_text :: js_value
  isl_text :: js_value
  video_path :: js_value

text \<open>
  What \<open>response.json()\<close> resolves to: \<open>null\<close>, on which reading \<open>data.status\<close> throws a
  TypeError, or an object. (A number, boolean, string or array has no property
  \<open>status\<close> and behaves as the object with no field.)
\<close>

datatype json = JNull | JObject payload

text \<open>
  The promise \<open>fetch(...).then(response => response.json())\<close> either rejects (the
  request fails or the body is not JSON) or resolves to the parsed body.
\<close>

datatype response = Rejected | Resolved json

section \<open>Requests, effects and the platform\<close>

type_synonym blob = "8 word list"

datatype form_value =
    FText js_string
  | FFile blob
  | FBlob blob js_string

record request =
  route :: js_string
  http_method :: js_string
  body :: "(js_string \<times> form_value) list"

text \<open>The three promise chains of the script, one per submit path.\<close>

datatype mode = TextMode | FileMode | RecordingMode

text \<open>The calls the script makes that are visible outside its own variables, in order.\<close>

datatype effect =
    ShowLoading
  | HideLoading
  | Fetch request
  | Toast js_string
  | ConsoleError
  | VideoLoad
  | ScrollIntoView
  | GetUserMedia
  | TrackStop nat

datatype recorder_state = Inactive | Recording

text \<open>
  A \<open>MediaRecorder\<close> with the stream it was built on. \<open>stop_queued\<close>: \<open>stop()\<close> was called
  and the platform has not yet fired the \<open>stop\<close> event.
\<close>

record recorder =
  rec_state :: recorder_state
  stop_queued :: bool
  tracks_live :: bool

text \<open>
  The page: the elements bound in lines 2-12 (a class as a flag, \<open>textContent\<close> and
  \<open>src\<close> as strings), the variables of lines 15-18, and the platform objects the script
  has created (recorders, intervals, pending promises).
\<close>

record page =
  startRecordingBtn_d_none :: bool
  startRecordingBtn_recording :: bool
  stopRecordingBtn_d_none :: bool
  recordingStatus :: js_string
  recordingTimer_d_none :: bool
  recordingTimer :: js_string
  loadingOverlay_d_none :: bool
  resultsSection_d_none :: bool
  englishTextResult :: js_string
  islTextResult :: js_string
  islVideo_src :: js_string
  mediaRecorder :: "nat option"
  audioChunks :: "blob list"
  recordingStartTime :: "int option"
  recordingTimerInterval :: "nat option"
  recorders :: "recorder list"
  intervals :: "bool list"
  pending_permissions :: nat
  pending_fetches :: "mode list"
  effects :: "effect list"

definition emit :: "effect \<Rightarrow> page \<Rightarrow> page" where
  "emit e s = s\<lparr>effects := effects s @ [e]\<rparr>"

section \<open>Loading overlay, notifications, results\<close>

definition showLoading :: "page \<Rightarrow> page" where
  "showLoading s = emit ShowLoading (s\<lparr>loadingOverlay_d_none := False\<rparr>)"

definition hideLoading :: "page \<Rightarrow> page" where
  "hideLoading s = emit HideLoading (s\<lparr>loadingOverlay_d_none := True\<rparr>)"

definition showError :: "js_string \<Rightarrow> page \<Rightarrow> page" where
  "showError message s = emit (Toast message) s"

definition console_error :: "page \<Rightarrow> page" where
  "console_error s = emit ConsoleError s"

definition displayResults :: "payload \<Rightarrow> page \<Rightarrow> page" where
  "displayResults data s =
     (let s1 = s\<lparr>englishTextResult := or_else (english_text data) (ascii ''No text recognized'')\<rparr>;
          s2 = s1\<lparr>islTextResult := or_else (isl_text data) (ascii ''No ISL conversion available'')\<rparr>;
          s3 = (if truthy (video_path data)
                then emit VideoLoad (s2\<lparr>islVideo_src := ascii ''/static/'' @ to_string (video_path data)\<rparr>)
                else s2\<lparr>islVideo_src := []\<rparr>);
          s4 = s3\<lparr>resultsSection_d_none := False\<rparr>
      in emit ScrollIntoView s4)"

section \<open>Promise chains\<close>

text \<open>
  A handler either completes or throws; what it changed before throwing stays changed.
  In \<open>p.then(f).catch(g)\<close>, \<open>g\<close> runs when \<open>p\<close> rejects and also when \<open>f\<close> throws.
\<close>

datatype 'a completion = Normal 'a | Throw 'a

definition fetch :: "request \<Rightarrow> mode \<Rightarrow> page \<Rightarrow> page" where
  "fetch req m s = emit (Fetch req) (s\<lparr>pending_fetches := pending_fetches s @ [m]\<rparr>)"

definition then_catch ::
  "(json \<Rightarrow> page \<Rightarrow> page completion) \<Rightarrow> (page \<Rightarrow> page) \<Rightarrow> response \<Rightarrow> page \<Rightarrow> page" where
  "then_catch f g r s =
     (case r of
        Rejected \<Rightarrow> g s
      | Resolved data \<Rightarrow> (case f data s of Normal s' \<Rightarrow> s' | Throw s' \<Rightarrow> g s'))"

text \<open>The continuation of lines 45-52 and 79-86, with the message of the path.\<close>

definition on_data :: "js_string \<Rightarrow> json \<Rightarrow> page \<Rightarrow> page completion" where
  "on_data failed data s =
     (let s1 = hideLoading s in
      case data of
        JNull \<Rightarrow> Throw s1
      | JObject d \<Rightarrow>
          Normal (if status d = Str (ascii ''success'') then displayResults d s1
                  else showError failed s1))"

definition on_error :: "page \<Rightarrow> page" where
  "on_error s =
     console_error (showError (ascii ''An error occurred. Please try again.'') (hideLoading s))"

section \<open>Text and file submission\<close>

definition handleTextSubmit :: "js_string \<Rightarrow> page \<Rightarrow> page" where
  "handleTextSubmit input_value s =
     (let textInput = trim input_value in
      if textInput = [] then s
      else fetch \<lparr>route = ascii ''/process_text'', http_method = ascii ''POST'',
                  body = [(ascii ''text'', FText textInput)]\<rparr> TextMode (showLoading s))"

definition text_settled :: "response \<Rightarrow> page \<Rightarrow> page" where
  "text_settled =
     then_catch (on_data (ascii ''Failed to process text. Please try again.'')) on_error"

text \<open>\<open>files[0]\<close> of an empty file list is \<open>undefined\<close>.\<close>

definition handleAudioUploadSubmit :: "blob list \<Rightarrow> page \<Rightarrow> page" where
  "handleAudioUploadSubmit files s =
     (case files of
        [] \<Rightarrow> s
      | audioFile # _ \<Rightarrow>
          fetch \<lparr>route = ascii ''/process_audio'', http_method = ascii ''POST'',
                 body = [(ascii ''audio'', FFile audioFile)]\<rparr> FileMode (showLoading s))"

definition audio_settled :: "response \<Rightarrow> page \<Rightarrow> page" where
  "audio_settled =
     then_catch (on_data (ascii ''Failed to process audio. Please try again.'')) on_error"

section \<open>The recording timer\<close>

text \<open>
  \<open>Number.prototype.toString\<close> on an integer: its decimal digits, with a minus sign
  when negative. \<open>Date.now()\<close> is an integer number of milliseconds.
\<close>

definition digit_char :: "nat \<Rightarrow> 16 word" where
  "digit_char d = of_nat (48 + d)"

fun digits :: "nat \<Rightarrow> js_string" where
  "digits n = (if n < 10 then [digit_char n] else digits (n div 10) @ [digit_char (n mod 10)])"

definition number_toString :: "int \<Rightarrow> js_string" where
  "number_toString i = (if i < 0 then 0x2D # digits (nat (- i)) else digits (nat i))"

definition padStart :: "nat \<Rightarrow> 16 word \<Rightarrow> js_string \<Rightarrow> js_string" where
  "padStart n c s = replicate (n - length s) c @ s"

text \<open>JavaScript's \<open>%\<close>: the remainder takes the sign of the dividend.\<close>

definition js_rem :: "int \<Rightarrow> int \<Rightarrow> int" where
  "js_rem a b = sgn a * (\<bar>a\<bar> mod \<bar>b\<bar>)"

text \<open>
  \<open>now\<close> is what \<open>Date.now()\<close> returns in the call. \<open>Math.floor\<close> of the quotient is the
  integer quotient rounded down (the double quotient of two such integers does not round
  across an integer). Before \<open>recordingStartTime\<close> is assigned the subtraction gives \<open>NaN\<close>.
\<close>

definition updateRecordingTimer :: "int \<Rightarrow> page \<Rightarrow> page" where
  "updateRecordingTimer now s =
     (case recordingStartTime s of
        None \<Rightarrow> s\<lparr>recordingTimer := ascii ''NaN:NaN''\<rparr>
      | Some start \<Rightarrow>
          (let elapsedSeconds = (now - start) div 1000;
               minutes = padStart 2 0x30 (number_toString (elapsedSeconds div 60));
               seconds = padStart 2 0x30 (number_toString (js_rem elapsedSeconds 60))
           in s\<lparr>recordingTimer := minutes @ 0x3A # seconds\<rparr>))"

section \<open>Recording\<close>

definition startRecording :: "page \<Rightarrow> page" where
  "startRecording s = emit GetUserMedia (s\<lparr>pending_permissions := Suc (pending_permissions s)\<rparr>)"

text \<open>
  The continuation of \<open>getUserMedia\<close> on a grant (lines 97-130). \<open>t0\<close> and \<open>t1\<close> are the two
  readings of \<open>Date.now()\<close>, in line 113 and in the call of line 114.
\<close>

definition permission_granted :: "int \<Rightarrow> int \<Rightarrow> page \<Rightarrow> page" where
  "permission_granted t0 t1 s =
     (let s1 = s\<lparr>startRecordingBtn_d_none := True, stopRecordingBtn_d_none := False,
                  recordingStatus := ascii ''Recording...'', recordingTimer_d_none := False\<rparr>;
          s2 = s1\<lparr>mediaRecorder := Some (length (recorders s1)),
                   recorders := recorders s1 @
                     [\<lparr>rec_state = Recording, stop_queued = False, tracks_live = True\<rparr>],
                   audioChunks := []\<rparr>;
          s3 = s2\<lparr>startRecordingBtn_recording := True, recordingStartTime := Some t0\<rparr>;
          s4 = updateRecordingTimer t1 s3
      in s4\<lparr>recordingTimerInterval := Some (length (intervals s4)),
             intervals := intervals s4 @ [True]\<rparr>)"

definition permission_denied :: "page \<Rightarrow> page" where
  "permission_denied s =
     console_error
       (showError (ascii ''Could not access microphone. Please check your permissions.'') s)"

text \<open>The \<open>dataavailable\<close> listener (lines 118-120).\<close>

definition dataavailable :: "blob \<Rightarrow> page \<Rightarrow> page" where
  "dataavailable event_data s = s\<lparr>audioChunks := audioChunks s @ [event_data]\<rparr>"

definition stopRecording :: "page \<Rightarrow> page" where
  "stopRecording s =
     (case mediaRecorder s of
        None \<Rightarrow> s
      | Some i \<Rightarrow>
          if rec_state (recorders s ! i) \<noteq> Inactive
          then s\<lparr>recorders := (recorders s)[i := (recorders s ! i)\<lparr>rec_state := Inactive, stop_queued := True\<rparr>],
                  recordingStatus := ascii ''Processing audio...''\<rparr>
          else s)"

definition clearInterval :: "nat option \<Rightarrow> page \<Rightarrow> page" where
  "clearInterval h s = (case h of None \<Rightarrow> s | Some i \<Rightarrow> s\<lparr>intervals := (intervals s)[i := False]\<rparr>)"

definition processRecordedAudio :: "page \<Rightarrow> page" where
  "processRecordedAudio s =
     fetch \<lparr>route = ascii ''/record_audio'', http_method = ascii ''POST'',
            body = [(ascii ''audio'', FBlob (concat (audioChunks s)) (ascii ''audio/webm''))]\<rparr>
       RecordingMode (showLoading s)"

text \<open>The \<open>stop\<close> listener of recorder \<open>i\<close> (lines 122-129); its stream is the \<open>i\<close>-th.\<close>

definition recorder_stopped :: "nat \<Rightarrow> page \<Rightarrow> page" where
  "recorder_stopped i s =
     (let s1 = clearInterval (recordingTimerInterval s) s;
          s2 = emit (TrackStop i)
                 (s1\<lparr>recorders := (recorders s1)[i := (recorders s1 ! i)\<lparr>stop_queued := False, tracks_live := False\<rparr>]\<rparr>)
      in processRecordedAudio s2)"

text \<open>The block under \<open>// Reset recording UI\<close> (lines 172-176 and 188-192).\<close>

definition reset_recording_ui :: "page \<Rightarrow> page" where
  "reset_recording_ui s =
     s\<lparr>startRecordingBtn_d_none := False, stopRecordingBtn_d_none := True,
       recordingStatus := ascii ''Click the microphone to start recording'',
       recordingTimer_d_none := True, startRecordingBtn_recording := False\<rparr>"

definition recording_on_data :: "json \<Rightarrow> page \<Rightarrow> page completion" where
  "recording_on_data data s =
     (let s1 = reset_recording_ui (hideLoading s) in
      case data of
        JNull \<Rightarrow> Throw s1
      | JObject d \<Rightarrow>
          Normal (if status d = Str (ascii ''success'') then displayResults d s1
                  else showError (ascii ''Failed to process recording. Please try again.'') s1))"

definition recording_on_error :: "page \<Rightarrow> page" where
  "recording_on_error s =
     console_error (showError (ascii ''An error occurred. Please try again.'')
       (reset_recording_ui (hideLoading s)))"

definition recording_settled :: "response \<Rightarrow> page \<Rightarrow> page" where
  "recording_settled = then_catch recording_on_data recording_on_error"

section \<open>Events\<close>

text \<open>
  What the user and the platform can do to the page. A click reaches a button only while
  it is displayed; a promise settles only while it is pending; a recorder delivers data
  while it records or finishes, and fires \<open>stop\<close> once after \<open>stop()\<close>; an interval
  ticks until it is cleared.
\<close>

datatype event =
    SubmitText js_string
  | SubmitFile "blob list"
  | ClickStart
  | ClickStop
  | PermissionGranted int int
  | PermissionDenied
  | DataAvailable nat blob
  | RecorderStopped nat
  | Tick nat int
  | FetchSettled mode response

fun enabled :: "event \<Rightarrow> page \<Rightarrow> bool" where
  "enabled (SubmitText v) s = True"
| "enabled (SubmitFile fs) s = True"
| "enabled ClickStart s = (\<not> startRecordingBtn_d_none s)"
| "enabled ClickStop s = (\<not> stopRecordingBtn_d_none s)"
| "enabled (PermissionGranted t0 t1) s = (0 < pending_permissions s)"
| "enabled PermissionDenied s = (0 < pending_permissions s)"
| "enabled (DataAvailable i b) s =
     (i < length (recorders s) \<and>
      (rec_state (recorders s ! i) = Recording \<or> stop_queued (recorders s ! i)))"
| "enabled (RecorderStopped i) s = (i < length (recorders s) \<and> stop_queued (recorders s ! i))"
| "enabled (Tick i now) s = (i < length (intervals s) \<and> intervals s ! i)"
| "enabled (FetchSettled m r) s = (m \<in> set (pending_fetches s))"

text \<open>The continuation registered by the path \<open>m\<close>.\<close>

definition settle :: "mode \<Rightarrow> response \<Rightarrow> page \<Rightarrow> page" where
  "settle m r s =
     (case m of
        TextMode \<Rightarrow> text_settled r s
      | FileMode \<Rightarrow> audio_settled r s
      | RecordingMode \<Rightarrow> recording_settled r s)"

fun step :: "event \<Rightarrow> page \<Rightarrow> page" where
  "step (SubmitText v) s = handleTextSubmit v s"
| "step (SubmitFile fs) s = handleAudioUploadSubmit fs s"
| "step ClickStart s = startRecording s"
| "step ClickStop s = stopRecording s"
| "step (PermissionGranted t0 t1) s =
     permission_granted t0 t1 (s\<lparr>pending_permissions := pending_permissions s - 1\<rparr>)"
| "step PermissionDenied s =
     permission_denied (s\<lparr>pending_permissions := pending_permissions s - 1\<rparr>)"
| "step (DataAvailable i b) s = dataavailable b s"
| "step (RecorderStopped i) s = recorder_stopped i s"
| "step (Tick i now) s = updateRecordingTimer now s"
| "step (FetchSettled m r) s = settle m r (s\<lparr>pending_fetches := remove1 m (pending_fetches s)\<rparr>)"

fun run :: "event list \<Rightarrow> page \<Rightarrow> page option" where
  "run [] s = Some s"
| "run (e # es) s = (if enabled e s then run es (step e s) else None)"

text \<open>
  Modelled from the spec: the page markup is not part of the script. The page as loaded
  has the recording controls in the presentation that the reset block of the script
  restores (section 4.1, \<open>IDLE\<close>), the loading overlay and the results region hidden
  (section 8), nothing rendered, and no recorder, interval or promise yet.
\<close>

definition initial :: page where
  "initial =
     \<lparr>startRecordingBtn_d_none = False, startRecordingBtn_recording = False,
      stopRecordingBtn_d_none = True, recordingStatus = ascii ''Click the microphone to start recording'',
      recordingTimer_d_none = True, recordingTimer = ascii ''00:00'',
      loadingOverlay_d_none = True, resultsSection_d_none = True,
      englishTextResult = [], islTextResult = [], islVideo_src = [],
      mediaRecorder = None, audioChunks = [], recordingStartTime = None,
      recordingTimerInterval = None, recorders = [], intervals = [],
      pending_permissions = 0, pending_fetches = [], effects = []\<rparr>"

section \<open>Observations\<close>

text \<open>The requests dispatched, read off the effects.\<close>

fun requests :: "effect list \<Rightarrow> request list" where
  "requests [] = []"
| "requests (Fetch r # es) = r # requests es"
| "requests (e # es) = requests es"

definition hide_calls :: "page \<Rightarrow> nat" where
  "hide_calls s = count_list (effects s) HideLoading"

text \<open>The recording controls: the two buttons, the status line and the timer's visibility.\<close>

definition recording_ui :: "page \<Rightarrow> bool \<times> bool \<times> bool \<times> js_string \<times> bool" where
  "recording_ui s =
     (startRecordingBtn_d_none s, startRecordingBtn_recording s, stopRecordingBtn_d_none s,
      recordingStatus s, recordingTimer_d_none s)"

definition shows_idle :: "page \<Rightarrow> bool" where
  "shows_idle s =
     (recording_ui s =
        (False, False, True, ascii ''Click the microphone to start recording'', True))"

definition active_sessions :: "page \<Rightarrow> nat" where
  "active_sessions s = length (filter (\<lambda>r. rec_state r = Recording) (recorders s))"

text \<open>What a render leaves on the page.\<close>

definition rendered :: "page \<Rightarrow> js_string \<times> js_string \<times> js_string \<times> bool" where
  "rendered s = (englishTextResult s, islTextResult s, islVideo_src s, resultsSection_d_none s)"

definition render_all :: "payload list \<Rightarrow> page \<Rightarrow> page" where
  "render_all ps s = foldl (\<lambda>s p. displayResults p s) s ps"

text \<open>
  Reading the timer text back: the decimal number before the colon counts minutes, the
  one after it seconds.
\<close>

definition digit_value :: "16 word \<Rightarrow> nat" where
  "digit_value c = unat c - 48"

definition read_decimal :: "js_string \<Rightarrow> nat" where
  "read_decimal ds = foldl (\<lambda>n c. 10 * n + digit_value c) 0 ds"

definition timer_seconds :: "js_string \<Rightarrow> nat" where
  "timer_seconds txt =
     60 * read_decimal (takeWhile (\<lambda>c. c \<noteq> 0x3A) txt)
       + read_decimal (tl (dropWhile (\<lambda>c. c \<noteq> 0x3A) txt))"

text \<open>A number zero-padded to width 2, as the specification words it.\<close>

definition two_digits :: "nat \<Rightarrow> js_string" where
  "two_digits n = (if n < 10 then [0x30, digit_char n] else digits n)"

section \<open>Auxiliary facts\<close>

declare digits.simps [simp del]

lemma requests_append [simp]: "requests (xs @ ys) = requests xs @ requests ys"
  by (induction xs rule: requests.induct) simp_all

lemmas effect_defs =
  emit_def showLoading_def hideLoading_def showError_def console_error_def fetch_def

lemmas settle_defs =
  settle_def text_settled_def audio_settled_def recording_settled_def then_catch_def
  on_data_def on_error_def recording_on_data_def recording_on_error_def reset_recording_ui_def

lemmas recording_defs =
  startRecording_def permission_granted_def permission_denied_def stopRecording_def
  dataavailable_def recorder_stopped_def processRecordedAudio_def clearInterval_def
  updateRecordingTimer_def

subsection \<open>Trimming\<close>

lemma all_white_trim:
  assumes "list_all is_white_space v"
  shows "trim v = []"
proof -
  have h: "dropWhile is_white_space v = []"
    using assms by (simp add: dropWhile_eq_Nil_conv list_all_iff)
  show ?thesis by (simp only: trim_def h dropWhile.simps rev.simps)
qed

lemma trim_strip:
  assumes "list_all is_white_space a" "list_all is_white_space b"
    and "m \<noteq> []" "\<not> is_white_space (hd m)" "\<not> is_white_space (last m)"
  shows "trim (a @ m @ b) = m"
proof -
  have 1: "dropWhile is_white_space (a @ m @ b) = m @ b"
    using assms by (cases m) (simp_all add: dropWhile_append2 list_all_iff)
  have 2: "dropWhile is_white_space (rev b @ rev m) = rev m"
    using assms
    by (cases m rule: rev_cases)
       (simp_all add: dropWhile_append3 dropWhile_eq_Nil_conv list_all_iff)
  show ?thesis by (simp add: trim_def 1 2)
qed

text \<open>
  An input that is not blank is some whitespace, then a core that starts and ends with a
  code unit that is not whitespace, then some whitespace; \<open>trim\<close> returns the core.
\<close>

lemma trim_decomposition:
  assumes "\<not> list_all is_white_space v"
  shows "\<exists>a b. v = a @ trim v @ b \<and> list_all is_white_space a \<and> list_all is_white_space b
           \<and> trim v \<noteq> [] \<and> \<not> is_white_space (hd (trim v)) \<and> \<not> is_white_space (last (trim v))"
proof -
  define a where "a = takeWhile is_white_space v"
  define d where "d = dropWhile is_white_space v"
  define b where "b = rev (takeWhile is_white_space (rev d))"
  define m where "m = rev (dropWhile is_white_space (rev d))"
  have v: "v = a @ d" by (simp add: a_def d_def)
  have "rev d = rev b @ rev m" by (simp add: b_def m_def)
  then have d: "d = m @ b" by (metis rev_append rev_rev_ident)
  have wa: "list_all is_white_space a"
    by (simp add: a_def list_all_iff) (metis set_takeWhileD)
  have wb: "list_all is_white_space b"
    by (simp add: b_def list_all_iff) (metis set_takeWhileD)
  have dne: "d \<noteq> []"
    using assms by (simp add: d_def dropWhile_eq_Nil_conv list_all_iff)
  then have hd_d: "\<not> is_white_space (hd d)"
    using hd_dropWhile[of is_white_space v] by (simp add: d_def)
  have mne: "m \<noteq> []"
  proof
    assume "m = []"
    then have "list_all is_white_space d" using d wb by simp
    then show False using hd_d dne by (cases d) simp_all
  qed
  then have hm: "\<not> is_white_space (hd m)" using hd_d d by (cases m) simp_all
  have "dropWhile is_white_space (rev d) \<noteq> []" using mne by (simp add: m_def)
  then have "\<not> is_white_space (hd (dropWhile is_white_space (rev d)))"
    by (rule hd_dropWhile)
  then have lm: "\<not> is_white_space (last m)" using mne by (simp add: m_def last_rev)
  have "trim v = m" by (simp add: trim_def m_def d_def)
  then show ?thesis using v d wa wb mne hm lm by auto
qed

lemma trim_nonblank: "\<not> list_all is_white_space v \<Longrightarrow> trim v \<noteq> []"
  using trim_decomposition[of v] by blast

lemma trim_padding:
  assumes "list_all is_white_space a" "list_all is_white_space b"
  shows "trim (a @ v @ b) = trim v"
proof (cases "list_all is_white_space v")
  case True
  then have "list_all is_white_space (a @ v @ b)" using assms by simp
  then show ?thesis using True by (simp add: all_white_trim)
next
  case False
  from trim_decomposition[OF False] obtain a' b' where
    v: "v = a' @ trim v @ b'" and w: "list_all is_white_space a'" "list_all is_white_space b'"
    and m: "trim v \<noteq> []" "\<not> is_white_space (hd (trim v))" "\<not> is_white_space (last (trim v))"
    by blast
  have e: "a @ v @ b = (a @ a') @ trim v @ (b' @ b)" by (subst v) simp
  have t: "trim ((a @ a') @ trim v @ (b' @ b)) = trim v"
    using assms w m by (intro trim_strip) simp_all
  show ?thesis unfolding e by (rule t)
qed

subsection \<open>Settling a request\<close>



text \<open>
  On a body that is \<open>null\<close> the first continuation hides the overlay and throws at
  \<open>data.status\<close>; the \<open>catch\<close> continuation then hides it again.
\<close>

lemma hide_calls_null: "hide_calls (settle m (Resolved JNull) s) = hide_calls s + 2"
  by (cases m) (simp_all add: settle_defs effect_defs hide_calls_def)


lemma recorder_stopped_ui: "recording_ui (recorder_stopped i s) = recording_ui s"
  by (simp add: recorder_stopped_def processRecordedAudio_def clearInterval_def effect_defs
      recording_ui_def Let_def split: option.splits)

lemma recording_settled_idle: "shows_idle (recording_settled r s)"
  by (cases r)
     (simp_all add: settle_defs effect_defs displayResults_def Let_def shows_idle_def
        recording_ui_def split: json.splits)

text \<open>
  The chunk sequence is emptied by the grant continuation only, and grows by the one buffer
  of each \<open>dataavailable\<close> event, at its end; nothing else touches it.
\<close>

lemma audioChunks_step:
  "audioChunks (step e s) =
     (case e of
        PermissionGranted t0 t1 \<Rightarrow> []
      | DataAvailable i b \<Rightarrow> audioChunks s @ [b]
      | _ \<Rightarrow> audioChunks s)"
proof (cases e)
  case (FetchSettled m r)
  then show ?thesis
    by (cases m; cases r)
       (simp_all add: settle_defs effect_defs displayResults_def Let_def split: json.splits)
qed (simp_all add: handleTextSubmit_def handleAudioUploadSubmit_def effect_defs Let_def
      recording_defs split: list.splits option.splits)



subsection \<open>Decimal digits\<close>

lemma unat_digit_char: "d < 10 \<Longrightarrow> unat (digit_char d) = 48 + d"
  unfolding digit_char_def unat_of_nat by simp

lemma digit_value_digit_char: "d < 10 \<Longrightarrow> digit_value (digit_char d) = d"
  by (simp add: digit_value_def unat_digit_char)

lemma digit_char_not_colon: "d < 10 \<Longrightarrow> digit_char d \<noteq> 0x3A"
proof
  assume "d < 10" and "digit_char d = 0x3A"
  then have "unat (digit_char d) = unat (0x3A :: 16 word)"
    by simp
  with \<open>d < 10\<close> show False by (simp add: unat_digit_char)
qed

lemma read_decimal_snoc: "read_decimal (ds @ [c]) = 10 * read_decimal ds + digit_value c"
  by (simp add: read_decimal_def)

lemma read_decimal_digits: "read_decimal (digits n) = n"
proof (induction n rule: digits.induct)
  case (1 n)
  show ?case
  proof (cases "n < 10")
    case True
    then show ?thesis
      by (simp add: digits.simps[of n] read_decimal_def digit_value_digit_char)
  next
    case False
    then have "read_decimal (digits (n div 10)) = n div 10" using 1 by simp
    with False show ?thesis
      by (simp add: digits.simps[of n] read_decimal_snoc digit_value_digit_char)
  qed
qed

lemma digits_no_colon: "c \<in> set (digits n) \<Longrightarrow> c \<noteq> 0x3A"
proof (induction n rule: digits.induct)
  case (1 n)
  show ?case
  proof (cases "n < 10")
    case True
    with 1(2) show ?thesis by (simp add: digits.simps[of n] digit_char_not_colon)
  next
    case False
    with 1 show ?thesis
      by (auto simp add: digits.simps[of n] digit_char_not_colon)
  qed
qed

lemma length_digits:
  "length (digits n) = (if n < 10 then 1 else Suc (length (digits (n div 10))))"
  by (subst digits.simps) simp

lemma digits_ge10: "10 \<le> n \<Longrightarrow> 2 \<le> length (digits n)"
  by (subst length_digits, simp, subst length_digits, simp)

lemma read_decimal_zeros: "read_decimal (replicate k 0x30 @ ds) = read_decimal ds"
proof -
  have z: "foldl (\<lambda>n c. 10 * n + digit_value c) 0 (replicate k (0x30 :: 16 word)) = 0"
    by (induction k) (simp_all add: digit_value_def)
  show ?thesis by (simp add: read_decimal_def z)
qed

lemma padStart_digits: "padStart 2 0x30 (digits n) = two_digits n"
proof (cases "n < 10")
  case True
  then show ?thesis by (simp add: padStart_def two_digits_def digits.simps[of n])
next
  case False
  then have "2 \<le> length (digits n)" by (simp add: digits_ge10)
  with False show ?thesis by (simp add: padStart_def two_digits_def)
qed

lemma two_digits_no_colon: "c \<in> set (two_digits n) \<Longrightarrow> c \<noteq> 0x3A"
  by (auto simp add: two_digits_def digits_no_colon digit_char_not_colon split: if_splits)

lemma read_two_digits: "read_decimal (two_digits n) = n"
  using read_decimal_zeros[of "2 - length (digits n)" "digits n"]
  by (simp add: padStart_digits[symmetric] padStart_def read_decimal_digits)

lemma two_digits_below_100:
  assumes "n < 100"
  shows "two_digits n = [digit_char (n div 10), digit_char (n mod 10)]"
proof (cases "n < 10")
  case True
  then show ?thesis by (simp add: two_digits_def digit_char_def)
next
  case False
  then have "n div 10 < 10" using assms by simp
  with False show ?thesis
    by (simp add: two_digits_def digits.simps[of n] digits.simps[of "n div 10"])
qed

lemma timer_text:
  assumes "recordingStartTime s = Some t0" "t0 \<le> t"
  shows "recordingTimer (updateRecordingTimer t s) =
           two_digits (nat ((t - t0) div 1000) div 60) @
           0x3A # two_digits (nat ((t - t0) div 1000) mod 60)"
proof -
  define e where "e = (t - t0) div 1000"
  have e0: "0 \<le> e" using assms(2) by (simp add: e_def pos_imp_zdiv_nonneg_iff)
  then have m: "number_toString (e div 60) = digits (nat e div 60)"
    by (simp add: number_toString_def nat_div_distrib pos_imp_zdiv_nonneg_iff)
  have "js_rem e 60 = e mod 60" using e0 by (cases "e = 0") (simp_all add: js_rem_def)
  then have r: "number_toString (js_rem e 60) = digits (nat e mod 60)"
    using e0 by (simp add: number_toString_def nat_mod_distrib)
  show ?thesis
    using assms(1)
    by (simp add: updateRecordingTimer_def Let_def e_def[symmetric] m r padStart_digits)
qed

lemma timer_seconds_text: "timer_seconds (two_digits m @ 0x3A # two_digits r) = 60 * m + r"
proof -
  have a: "takeWhile (\<lambda>c. c \<noteq> 0x3A) (two_digits m @ 0x3A # two_digits r) = two_digits m"
    by (simp add: takeWhile_append2 two_digits_no_colon)
  have b: "dropWhile (\<lambda>c. c \<noteq> 0x3A) (two_digits m @ 0x3A # two_digits r) = 0x3A # two_digits r"
    by (simp add: dropWhile_append2 two_digits_no_colon)
  show ?thesis by (simp only: timer_seconds_def a b list.sel read_two_digits)
qed

lemma timer_seconds_elapsed:
  assumes "recordingStartTime s = Some t0" "t0 \<le> t"
  shows "timer_seconds (recordingTimer (updateRecordingTimer t s)) = nat ((t - t0) div 1000)"
  using timer_text[OF assms] by (simp add: timer_seconds_text)

section \<open>The claims\<close>

text \<open>
  C1 (as amended). The \<open>stop\<close> listener of a recorder leaves the recording controls as they
  are and dispatches the upload to \<open>/record_audio\<close>; the controls are reset to the idle
  presentation when that upload settles, whatever the response.
\<close>

theorem recording_ui_reset_on_settle:
  "recording_ui (recorder_stopped i s) = recording_ui s
   \<and> pending_fetches (recorder_stopped i s) = pending_fetches s @ [RecordingMode]
   \<and> shows_idle (settle RecordingMode r s')"
  by (simp add: recorder_stopped_ui recording_settled_idle settle_def)
     (simp add: recorder_stopped_def processRecordedAudio_def clearInterval_def effect_defs
        Let_def split: option.splits)

text \<open>
  C1 as stated fails: after start, grant, stop and the recorder's \<open>stop\<close> event the
  controls are not in the idle presentation.
\<close>

theorem stop_handler_not_idle:
  "map_option shows_idle
     (run [ClickStart, PermissionGranted 0 0, ClickStop, RecorderStopped 0] initial) = Some False"
  by (simp add: initial_def recording_defs effect_defs Let_def shows_idle_def recording_ui_def)

text \<open>
  C2. Two clicks on the start button before the first permission request is answered, each
  then granted, leave two recorders recording at once; after the stop button, the \<open>stop\<close>
  event and the settled upload, the first recorder still records on live tracks, the
  variable \<open>mediaRecorder\<close> points at the second, and the stop button is hidden.
\<close>

theorem double_start_two_sessions:
  "map_option active_sessions
     (run [ClickStart, ClickStart, PermissionGranted 0 0, PermissionGranted 5 5] initial) = Some 2
   \<and> map_option recorders
     (run [ClickStart, ClickStart, PermissionGranted 0 0, PermissionGranted 5 5, ClickStop,
           RecorderStopped 1, FetchSettled RecordingMode Rejected] initial) =
       Some [\<lparr>rec_state = Recording, stop_queued = False, tracks_live = True\<rparr>,
             \<lparr>rec_state = Inactive, stop_queued = False, tracks_live = False\<rparr>]
   \<and> map_option (enabled ClickStop)
     (run [ClickStart, ClickStart, PermissionGranted 0 0, PermissionGranted 5 5, ClickStop,
           RecorderStopped 1, FetchSettled RecordingMode Rejected] initial) = Some False"
  by (simp add: initial_def recording_defs effect_defs settle_defs Let_def active_sessions_def)




text \<open>
  C4. A text submission that is not blank is one POST to \<open>/process_text\<close> with the single
  field \<open>text\<close>; a file submission is one POST to \<open>/process_audio\<close> with the single field
  \<open>audio\<close> holding the first selected file; a recording is one POST to \<open>/record_audio\<close> with
  the single field \<open>audio\<close> holding a blob of type \<open>audio/webm\<close> whose content is the
  concatenation of the chunks.
\<close>

theorem submission_routes:
  "(\<not> list_all is_white_space v \<longrightarrow>
      requests (effects (handleTextSubmit v s)) = requests (effects s) @
        [\<lparr>route = ascii ''/process_text'', http_method = ascii ''POST'',
          body = [(ascii ''text'', FText (trim v))]\<rparr>])
   \<and> requests (effects (handleAudioUploadSubmit (f # fs) s)) = requests (effects s) @
        [\<lparr>route = ascii ''/process_audio'', http_method = ascii ''POST'',
          body = [(ascii ''audio'', FFile f)]\<rparr>]
   \<and> requests (effects (processRecordedAudio s)) = requests (effects s) @
        [\<lparr>route = ascii ''/record_audio'', http_method = ascii ''POST'',
          body = [(ascii ''audio'', FBlob (concat (audioChunks s)) (ascii ''audio/webm''))]\<rparr>]"
  by (simp add: handleTextSubmit_def handleAudioUploadSubmit_def processRecordedAudio_def
      effect_defs trim_nonblank)

theorem submission_routes_witness:
  "\<not> list_all is_white_space (ascii '' hello '')
   \<and> requests (effects (handleTextSubmit (ascii '' hello '') initial)) =
        [\<lparr>route = ascii ''/process_text'', http_method = ascii ''POST'',
          body = [(ascii ''text'', FText (ascii ''hello''))]\<rparr>]
   \<and> requests (effects (processRecordedAudio (initial\<lparr>audioChunks := [[1, 2], [3]]\<rparr>))) =
        [\<lparr>route = ascii ''/record_audio'', http_method = ascii ''POST'',
          body = [(ascii ''audio'', FBlob [1, 2, 3] (ascii ''audio/webm''))]\<rparr>]"
  using submission_routes [of "ascii '' hello ''" initial "[]" "[]"]
    submission_routes [of "ascii '' hello ''" "initial\<lparr>audioChunks := [[1, 2], [3]]\<rparr>" "[]" "[]"]
  by (simp add: ascii_def is_white_space_def trim_def initial_def)

text \<open>
  C5. With the recording started at \<open>t0\<close> and a tick at \<open>t \<ge> t0\<close>, the timer text is the
  minutes \<open>e div 60\<close> zero-padded to width 2, a colon, and the two decimal digits of the
  seconds \<open>e mod 60\<close>, where \<open>e\<close> is \<open>(t - t0) div 1000\<close>; read back as a time, the text
  is \<open>e\<close> seconds, and a later tick never displays less.
\<close>

theorem timer_text_MMSS:
  assumes "recordingStartTime s = Some t0" and "t0 \<le> t" and "t \<le> t'"
  shows "recordingTimer (updateRecordingTimer t s) =
           two_digits (nat ((t - t0) div 1000) div 60) @ 0x3A #
           [digit_char (nat ((t - t0) div 1000) mod 60 div 10),
            digit_char (nat ((t - t0) div 1000) mod 60 mod 10)]
         \<and> timer_seconds (recordingTimer (updateRecordingTimer t s)) = nat ((t - t0) div 1000)
         \<and> timer_seconds (recordingTimer (updateRecordingTimer t s))
             \<le> timer_seconds (recordingTimer (updateRecordingTimer t' s))"
proof -
  let ?e = "nat ((t - t0) div 1000)"
  have "?e mod 60 < 100" by simp
  then have "two_digits (?e mod 60) = [digit_char (?e mod 60 div 10), digit_char (?e mod 60 mod 10)]"
    by (rule two_digits_below_100)
  then have shape: "recordingTimer (updateRecordingTimer t s) =
      two_digits (?e div 60) @ 0x3A # [digit_char (?e mod 60 div 10), digit_char (?e mod 60 mod 10)]"
    using timer_text[OF assms(1,2)] by simp
  have "t0 \<le> t'" using assms(2,3) by simp
  then have later: "timer_seconds (recordingTimer (updateRecordingTimer t' s)) = nat ((t' - t0) div 1000)"
    by (rule timer_seconds_elapsed[OF assms(1)])
  have now: "timer_seconds (recordingTimer (updateRecordingTimer t s)) = ?e"
    by (rule timer_seconds_elapsed[OF assms(1,2)])
  have "(t - t0) div 1000 \<le> (t' - t0) div 1000" using assms(3) by (simp add: zdiv_mono1)
  then have "?e \<le> nat ((t' - t0) div 1000)" by (rule nat_mono)
  with shape now later show ?thesis by simp
qed

theorem timer_text_MMSS_witness:
  "recordingStartTime (initial\<lparr>recordingStartTime := Some 1000\<rparr>) = Some 1000
   \<and> (1000::int) \<le> 754321 \<and> (754321::int) \<le> 6001000
   \<and> recordingTimer (updateRecordingTimer 754321 (initial\<lparr>recordingStartTime := Some 1000\<rparr>)) =
       ascii ''12:33''
   \<and> timer_seconds (recordingTimer (updateRecordingTimer 754321 (initial\<lparr>recordingStartTime := Some 1000\<rparr>))) =
       753
   \<and> timer_seconds (recordingTimer (updateRecordingTimer 754321 (initial\<lparr>recordingStartTime := Some 1000\<rparr>)))
       \<le> timer_seconds (recordingTimer (updateRecordingTimer 6001000 (initial\<lparr>recordingStartTime := Some 1000\<rparr>)))"
proof -
  let ?s = "initial\<lparr>recordingStartTime := Some 1000\<rparr>"
  have a: "recordingStartTime ?s = Some 1000" by simp
  have l1: "(1000::int) \<le> 754321" by simp
  have l2: "(754321::int) \<le> 6001000" by simp
  note w = timer_text_MMSS[OF a l1 l2]
  have d12: "two_digits 12 = ascii ''12''"
    by (simp add: two_digits_below_100 digit_char_def ascii_def)
  have x: "recordingTimer (updateRecordingTimer 754321 ?s) = ascii ''12:33''"
    using w[THEN conjunct1] by (simp add: d12 digit_char_def ascii_def)
  have y: "timer_seconds (recordingTimer (updateRecordingTimer 754321 ?s)) = 753"
    using w[THEN conjunct2, THEN conjunct1] by simp
  note z = w[THEN conjunct2, THEN conjunct2]
  show ?thesis by (intro conjI; fact)
qed

text \<open>
  C6. Submitting a text that is empty or all whitespace, or the file form with no file
  selected, returns the page as it was: no request, no notice, the overlay and everything
  rendered unchanged.
\<close>

theorem empty_input_ignored:
  "(list_all is_white_space v \<longrightarrow> handleTextSubmit v s = s) \<and> handleAudioUploadSubmit [] s = s"
  by (simp add: handleTextSubmit_def handleAudioUploadSubmit_def all_white_trim)

theorem empty_input_ignored_witness:
  "list_all is_white_space [0x20, 0x09, 0x3000]
   \<and> handleTextSubmit [0x20, 0x09, 0x3000] initial = initial
   \<and> handleTextSubmit [] initial = initial
   \<and> handleAudioUploadSubmit [] initial = initial"
  using empty_input_ignored [of "[0x20, 0x09, 0x3000]" initial] empty_input_ignored [of "[]" initial]
  by (simp add: is_white_space_def)

text \<open>
  C7. A render writes the English text of the payload when it is a string that is not empty
  and the literal \<open>No text recognized\<close> when it is absent, \<open>null\<close> or empty; likewise the ISL
  text, with \<open>No ISL conversion available\<close>. A video path that is a string and not empty
  sets the media source to \<open>/static/\<close> followed by the path and loads the media element;
  otherwise the media source is cleared and nothing is loaded. The path
  \<open>signs/hello.mp4\<close> gives \<open>/static/signs/hello.mp4\<close>.
\<close>

theorem displayResults_fields:
  "englishTextResult (displayResults d s) =
     (case english_text d of
        Str t \<Rightarrow> if t = [] then ascii ''No text recognized'' else t
      | _ \<Rightarrow> ascii ''No text recognized'')
   \<and> islTextResult (displayResults d s) =
     (case isl_text d of
        Str t \<Rightarrow> if t = [] then ascii ''No ISL conversion available'' else t
      | _ \<Rightarrow> ascii ''No ISL conversion available'')
   \<and> islVideo_src (displayResults d s) =
     (case video_path d of Str t \<Rightarrow> if t = [] then [] else ascii ''/static/'' @ t | _ \<Rightarrow> [])
   \<and> effects (displayResults d s) =
     effects s @ (case video_path d of Str t \<Rightarrow> if t = [] then [] else [VideoLoad] | _ \<Rightarrow> [])
       @ [ScrollIntoView]
   \<and> islVideo_src (displayResults (d\<lparr>video_path := Str (ascii ''signs/hello.mp4'')\<rparr>) s) =
       ascii ''/static/signs/hello.mp4''"
proof -
  have ex: "islVideo_src (displayResults (d\<lparr>video_path := Str (ascii ''signs/hello.mp4'')\<rparr>) s) =
       ascii ''/static/signs/hello.mp4''"
    by (simp add: displayResults_def Let_def emit_def ascii_def)
  have rest: "englishTextResult (displayResults d s) =
     (case english_text d of
        Str t \<Rightarrow> if t = [] then ascii ''No text recognized'' else t
      | _ \<Rightarrow> ascii ''No text recognized'')
   \<and> islTextResult (displayResults d s) =
     (case isl_text d of
        Str t \<Rightarrow> if t = [] then ascii ''No ISL conversion available'' else t
      | _ \<Rightarrow> ascii ''No ISL conversion available'')
   \<and> islVideo_src (displayResults d s) =
     (case video_path d of Str t \<Rightarrow> if t = [] then [] else ascii ''/static/'' @ t | _ \<Rightarrow> [])
   \<and> effects (displayResults d s) =
     effects s @ (case video_path d of Str t \<Rightarrow> if t = [] then [] else [VideoLoad] | _ \<Rightarrow> [])
       @ [ScrollIntoView]"
    by (simp add: displayResults_def Let_def emit_def or_else_def split: js_value.splits)
  from rest ex show ?thesis by simp
qed

text \<open>
  C8. Rendering the same payload a second time leaves the result texts, the media source
  and the visibility of the results region as the first render left them; the two pages
  differ in nothing but the effects performed.
\<close>

theorem displayResults_idempotent:
  "rendered (displayResults p (displayResults p s)) = rendered (displayResults p s)
   \<and> (displayResults p (displayResults p s))\<lparr>effects := []\<rparr> = (displayResults p s)\<lparr>effects := []\<rparr>"
  by (simp add: displayResults_def Let_def emit_def rendered_def)

text \<open>
  C9. Along any sequence of renders, once the results region is displayed after \<open>i\<close> of them
  it is displayed after every larger number \<open>j\<close> of them.
\<close>

theorem results_region_monotone:
  assumes "i \<le> j" and "\<not> resultsSection_d_none (render_all (take i ps) s)"
  shows "\<not> resultsSection_d_none (render_all (take j ps) s)"
proof (cases "take j ps = take i ps")
  case True
  with assms show ?thesis by simp
next
  case False
  have "take j ps \<noteq> []"
  proof
    assume e: "take j ps = []"
    then have "j = 0 \<or> ps = []" by simp
    then have "take i ps = []" using assms(1) by auto
    with e False show False by simp
  qed
  then obtain qs q where "take j ps = qs @ [q]"
    by (cases "take j ps" rule: rev_cases) auto
  then show ?thesis by (simp add: render_all_def displayResults_def Let_def emit_def)
qed

theorem results_region_monotone_witness:
  "(1::nat) \<le> 2
   \<and> \<not> resultsSection_d_none (render_all (take 1
        [\<lparr>status = Str (ascii ''success''), english_text = Str (ascii ''hi''), isl_text = Null, video_path = Undefined\<rparr>,
         \<lparr>status = Str (ascii ''success''), english_text = Undefined, isl_text = Undefined, video_path = Undefined\<rparr>]) initial)
   \<and> \<not> resultsSection_d_none (render_all (take 2
        [\<lparr>status = Str (ascii ''success''), english_text = Str (ascii ''hi''), isl_text = Null, video_path = Undefined\<rparr>,
         \<lparr>status = Str (ascii ''success''), english_text = Undefined, isl_text = Undefined, video_path = Undefined\<rparr>]) initial)"
proof -
  let ?ps = "[\<lparr>status = Str (ascii ''success''), english_text = Str (ascii ''hi''), isl_text = Null, video_path = Undefined\<rparr>,
         \<lparr>status = Str (ascii ''success''), english_text = Undefined, isl_text = Undefined, video_path = Undefined\<rparr>]"
  have le: "(1::nat) \<le> 2" by simp
  have one: "\<not> resultsSection_d_none (render_all (take 1 ?ps) initial)"
    by (simp add: render_all_def displayResults_def Let_def emit_def)
  from le one results_region_monotone[OF le one] show ?thesis by blast
qed

text \<open>
  C10. For an input that is not blank the field \<open>text\<close> of the request is the input without
  its leading and trailing whitespace: the input is whitespace, then the value sent, then
  whitespace, and the value sent starts and ends with a code unit that is not whitespace.
  Putting whitespace around an input changes nothing in what the submission does.
\<close>

theorem text_field_trimmed:
  assumes "list_all is_white_space a" and "list_all is_white_space b"
    and "\<not> list_all is_white_space v"
  shows "requests (effects (handleTextSubmit v s)) = requests (effects s) @
           [\<lparr>route = ascii ''/process_text'', http_method = ascii ''POST'',
             body = [(ascii ''text'', FText (trim v))]\<rparr>]
         \<and> (\<exists>l r. v = l @ trim v @ r \<and> list_all is_white_space l \<and> list_all is_white_space r)
         \<and> trim v \<noteq> [] \<and> \<not> is_white_space (hd (trim v)) \<and> \<not> is_white_space (last (trim v))
         \<and> handleTextSubmit (a @ v @ b) s = handleTextSubmit v s"
proof -
  have sent: "requests (effects (handleTextSubmit v s)) = requests (effects s) @
           [\<lparr>route = ascii ''/process_text'', http_method = ascii ''POST'',
             body = [(ascii ''text'', FText (trim v))]\<rparr>]"
    using assms(3) by (simp add: handleTextSubmit_def effect_defs trim_nonblank)
  have same: "handleTextSubmit (a @ v @ b) s = handleTextSubmit v s"
    by (simp add: handleTextSubmit_def trim_padding[OF assms(1,2)])
  from trim_decomposition[OF assms(3)] sent same show ?thesis by blast
qed

theorem text_field_trimmed_witness:
  "list_all is_white_space (ascii ''  '') \<and> list_all is_white_space [0x0A]
   \<and> \<not> list_all is_white_space (ascii ''a b'')
   \<and> requests (effects (handleTextSubmit (ascii ''  '' @ ascii ''a b'' @ [0x0A]) initial)) =
           [\<lparr>route = ascii ''/process_text'', http_method = ascii ''POST'',
             body = [(ascii ''text'', FText (ascii ''a b''))]\<rparr>]"
proof -
  have a: "list_all is_white_space (ascii ''  '')" by (simp add: ascii_def is_white_space_def)
  have b: "list_all is_white_space [0x0A]" by (simp add: is_white_space_def)
  have v: "\<not> list_all is_white_space (ascii ''a b'')" by (simp add: ascii_def is_white_space_def)
  have t: "trim (ascii ''a b'') = ascii ''a b''" by (simp add: ascii_def is_white_space_def trim_def)
  from text_field_trimmed[OF a b v, of initial] a b v show ?thesis
    by (simp add: t initial_def)
qed

end
